theory Spec2Isabelle
  imports Main "HOL-Library.Word"
begin

unbundle bit_operations_syntax

section \<open>Package lockedfile: data model\<close>

text \<open>
  The package wraps an \<^verbatim>\<open>*os.File\<close> in a \<^verbatim>\<open>File\<close> that is locked while it is open.
  Go's \<^verbatim>\<open>error\<close> interface is a datatype of the errors that occur here; \<^verbatim>\<open>*os.PathError\<close>
  keeps its three fields \<^verbatim>\<open>Op\<close>, \<^verbatim>\<open>Path\<close> and \<^verbatim>\<open>Err\<close>.
\<close>

type_synonym byte = "8 word"

datatype error =
    ErrClosed
  | ErrInvalid
  | ErrNotExist
  | ErrPermission
  | ErrOther string
  | PathError string string error

text \<open>
  \<^verbatim>\<open>errors.Is\<close>: the error itself or an error reached by unwrapping it
  (\<^verbatim>\<open>*os.PathError\<close> unwraps to its \<^verbatim>\<open>Err\<close> field).
\<close>

fun errors_Is :: "error \<Rightarrow> error \<Rightarrow> bool" where
  "errors_Is (PathError opn p e) target =
     (PathError opn p e = target \<or> errors_Is e target)"
| "errors_Is e target = (e = target)"

text \<open>A function of the program either returns or panics.\<close>

datatype 'a outcome = Return 'a | Panic string

definition nil_dereference :: string where
  "nil_dereference = ''invalid memory address or nil pointer dereference''"

text \<open>
  An \<^verbatim>\<open>*os.File\<close> that is not nil: its descriptor and the name it was opened with.
  A pointer that may be nil is an \<open>os_File option\<close>.
\<close>

record os_File =
  os_fd :: nat
  os_name :: string

text \<open>\<^verbatim>\<open>type File struct { osFile; closed bool }\<close>, with \<^verbatim>\<open>osFile\<close> the embedded pointer.\<close>

record File =
  osFile :: "os_File option"
  closed :: bool

text \<open>\<^verbatim>\<open>f.Name()\<close> is promoted from the embedded \<^verbatim>\<open>*os.File\<close> and reads through it.\<close>

definition Name :: "os_File option \<Rightarrow> string outcome" where
  "Name p = (case p of None \<Rightarrow> Panic nil_dereference | Some fl \<Rightarrow> Return (os_name fl))"

text \<open>
  Open flags are Go \<^verbatim>\<open>int\<close>s and permissions are \<^verbatim>\<open>os.FileMode\<close> (\<^verbatim>\<open>uint32\<close>). The flag
  constants are those of package \<^verbatim>\<open>os\<close> on Linux.
\<close>

type_synonym flags = "64 word"
type_synonym FileMode = "32 word"

definition O_RDONLY :: flags where "O_RDONLY = 0"
definition O_WRONLY :: flags where "O_WRONLY = 1"
definition O_RDWR :: flags where "O_RDWR = 2"
definition O_CREATE :: flags where "O_CREATE = 64"
definition O_TRUNC :: flags where "O_TRUNC = 512"

text \<open>
  \<^verbatim>\<open>openFile\<close> and \<^verbatim>\<open>closeFile\<close> are the platform's locking primitives, and \<^verbatim>\<open>ioutil.ReadAll\<close>
  and \<^verbatim>\<open>io.Copy\<close> are library calls; none of them is part of this file. They are parameters
  of the model: each takes the state \<open>'w\<close> of the operating system and returns its result
  with the new state. \<open>'r\<close> is the type of the \<^verbatim>\<open>io.Reader\<close> given to \<^verbatim>\<open>Write\<close>.
\<close>

record ('w, 'r) platform =
  openFile :: "string \<Rightarrow> flags \<Rightarrow> FileMode \<Rightarrow> 'w \<Rightarrow> (error + os_File) \<times> 'w"
  closeFile :: "os_File option \<Rightarrow> 'w \<Rightarrow> error option \<times> 'w"
  ReadAll :: "os_File option \<Rightarrow> 'w \<Rightarrow> (byte list \<times> error option) \<times> 'w"
  Copy :: "os_File option \<Rightarrow> 'r \<Rightarrow> 'w \<Rightarrow> (int \<times> error option) \<times> 'w"

text \<open>The calls made to these four, in order, with what each returned.\<close>

datatype call =
    CallOpenFile string flags FileMode "error + os_File"
  | CallCloseFile "os_File option" "error option"
  | CallReadAll "os_File option" "byte list \<times> error option"
  | CallCopy "os_File option" "int \<times> error option"

text \<open>
  The state of the program: the \<^verbatim>\<open>File\<close> objects by address, the addresses that have a
  finalizer set (\<^verbatim>\<open>runtime.SetFinalizer\<close>), the next free address, the calls made so far
  and the state of the operating system.
\<close>

record 'w state =
  heap :: "nat \<rightharpoonup> File"
  finalizers :: "nat set"
  nextaddr :: nat
  calls :: "call list"
  world :: 'w

section \<open>The operations\<close>

text \<open>
  \<^verbatim>\<open>OpenFile\<close>: \<^verbatim>\<open>new(File)\<close> takes the next address; the primitive's result is stored in
  the new object; on an error nil is returned with the error, otherwise the finalizer is
  set on the object and its address is returned.
\<close>

definition OpenFile ::
  "('w, 'r) platform \<Rightarrow> string \<Rightarrow> flags \<Rightarrow> FileMode \<Rightarrow> 'w state \<Rightarrow> (error + nat) \<times> 'w state" where
  "OpenFile P name flag perm s =
     (let f = nextaddr s;
          s1 = s\<lparr>heap := (heap s)(f \<mapsto> \<lparr>osFile = None, closed = False\<rparr>), nextaddr := Suc f\<rparr>
      in case openFile P name flag perm (world s1) of (r, w) \<Rightarrow>
        let s2 = s1\<lparr>calls := calls s1 @ [CallOpenFile name flag perm r], world := w\<rparr>
        in (case r of
              Inl err \<Rightarrow> (Inl err, s2)
            | Inr fl \<Rightarrow>
                (Inr f, s2\<lparr>heap := (heap s2)(f \<mapsto> \<lparr>osFile = Some fl, closed = False\<rparr>),
                           finalizers := insert f (finalizers s2)\<rparr>)))"

definition Open :: "('w, 'r) platform \<Rightarrow> string \<Rightarrow> 'w state \<Rightarrow> (error + nat) \<times> 'w state" where
  "Open P name s = OpenFile P name O_RDONLY 0 s"

definition Create :: "('w, 'r) platform \<Rightarrow> string \<Rightarrow> 'w state \<Rightarrow> (error + nat) \<times> 'w state" where
  "Create P name s = OpenFile P name (O_RDWR OR O_CREATE OR O_TRUNC) 438 s"

definition Edit :: "('w, 'r) platform \<Rightarrow> string \<Rightarrow> 'w state \<Rightarrow> (error + nat) \<times> 'w state" where
  "Edit P name s = OpenFile P name (O_RDWR OR O_CREATE) 438 s"

text \<open>
  \<^verbatim>\<open>Close\<close> on the \<^verbatim>\<open>File\<close> at address \<open>f\<close>. Reading \<^verbatim>\<open>f.closed\<close> through a pointer to no
  object panics.
\<close>

definition Close :: "('w, 'r) platform \<Rightarrow> nat \<Rightarrow> 'w state \<Rightarrow> error option outcome \<times> 'w state" where
  "Close P f s =
     (case heap s f of
        None \<Rightarrow> (Panic nil_dereference, s)
      | Some obj \<Rightarrow>
          if closed obj then
            (case Name (osFile obj) of
               Panic m \<Rightarrow> (Panic m, s)
             | Return n \<Rightarrow> (Return (Some (PathError ''close'' n ErrClosed)), s))
          else
            let s1 = s\<lparr>heap := (heap s)(f \<mapsto> obj\<lparr>closed := True\<rparr>)\<rparr>
            in case closeFile P (osFile obj) (world s1) of (err, w) \<Rightarrow>
              let s2 = s1\<lparr>calls := calls s1 @ [CallCloseFile (osFile obj) err], world := w\<rparr>;
                  s3 = s2\<lparr>finalizers := finalizers s2 - {f}\<rparr>
              in (Return err, s3))"

text \<open>
  \<^verbatim>\<open>Read\<close>: the deferred \<^verbatim>\<open>Close\<close> runs after \<^verbatim>\<open>ioutil.ReadAll\<close> has produced the values
  to return, and its own result is dropped. A nil byte slice is the empty list.
\<close>

definition Read ::
  "('w, 'r) platform \<Rightarrow> string \<Rightarrow> 'w state \<Rightarrow> (byte list \<times> error option) outcome \<times> 'w state" where
  "Read P name s =
     (case Open P name s of
        (Inl err, s1) \<Rightarrow> (Return ([], Some err), s1)
      | (Inr f, s1) \<Rightarrow>
          (case heap s1 f of
             None \<Rightarrow> (Panic nil_dereference, s1)
           | Some obj \<Rightarrow>
               (case ReadAll P (osFile obj) (world s1) of (r, w) \<Rightarrow>
                  let s2 = s1\<lparr>calls := calls s1 @ [CallReadAll (osFile obj) r], world := w\<rparr>
                  in (case Close P f s2 of
                        (Panic m, s3) \<Rightarrow> (Panic m, s3)
                      | (Return _, s3) \<Rightarrow> (Return r, s3)))))"

text \<open>\<^verbatim>\<open>Write\<close>: the byte count of \<^verbatim>\<open>io.Copy\<close> is dropped, \<^verbatim>\<open>Close\<close> is always called.\<close>

definition Write ::
  "('w, 'r) platform \<Rightarrow> string \<Rightarrow> 'r \<Rightarrow> FileMode \<Rightarrow> 'w state \<Rightarrow> error option outcome \<times> 'w state" where
  "Write P name content perm s =
     (case OpenFile P name (O_WRONLY OR O_CREATE OR O_TRUNC) perm s of
        (Inl err, s1) \<Rightarrow> (Return (Some err), s1)
      | (Inr f, s1) \<Rightarrow>
          (case heap s1 f of
             None \<Rightarrow> (Panic nil_dereference, s1)
           | Some obj \<Rightarrow>
               (case Copy P (osFile obj) content (world s1) of (r, w) \<Rightarrow>
                  let s2 = s1\<lparr>calls := calls s1 @ [CallCopy (osFile obj) r], world := w\<rparr>
                  in (case Close P f s2 of
                        (Panic m, s3) \<Rightarrow> (Panic m, s3)
                      | (Return closeErr, s3) \<Rightarrow>
                          (Return (if snd r = None then closeErr else snd r), s3)))))"

text \<open>
  The finalizer that \<^verbatim>\<open>OpenFile\<close> sets: it panics with a message built from \<^verbatim>\<open>f.Name()\<close>.
\<close>

definition leak_message :: "string \<Rightarrow> string" where
  "leak_message n = ''lockedfile.File '' @ n @ '' became unreachable without a call to Close''"

definition finalizer :: "File \<Rightarrow> unit outcome" where
  "finalizer obj =
     (case Name (osFile obj) of
        Panic m \<Rightarrow> Panic m
      | Return n \<Rightarrow> Panic (leak_message n))"

text \<open>
  What the runtime does with an object that has become unreachable: if a finalizer is set
  it clears it and runs it, otherwise it frees the object.
\<close>

definition unreachable :: "nat \<Rightarrow> 'w state \<Rightarrow> unit outcome \<times> 'w state" where
  "unreachable f s =
     (case heap s f of
        None \<Rightarrow> (Return (), s)
      | Some obj \<Rightarrow>
          if f \<in> finalizers s then (finalizer obj, s\<lparr>finalizers := finalizers s - {f}\<rparr>)
          else (Return (), s\<lparr>heap := (heap s)(f := None)\<rparr>))"

section \<open>Sequences of calls\<close>

text \<open>The calls a client can make on the package, and a client making them one after another.\<close>

datatype 'r op =
    OpOpenFile string flags FileMode
  | OpOpen string
  | OpCreate string
  | OpEdit string
  | OpClose nat
  | OpRead string
  | OpWrite string 'r FileMode

fun step :: "('w, 'r) platform \<Rightarrow> 'r op \<Rightarrow> 'w state \<Rightarrow> 'w state" where
  "step P (OpOpenFile name flag perm) s = snd (OpenFile P name flag perm s)"
| "step P (OpOpen name) s = snd (Open P name s)"
| "step P (OpCreate name) s = snd (Create P name s)"
| "step P (OpEdit name) s = snd (Edit P name s)"
| "step P (OpClose f) s = snd (Close P f s)"
| "step P (OpRead name) s = snd (Read P name s)"
| "step P (OpWrite name content perm) s = snd (Write P name content perm s)"

fun run :: "('w, 'r) platform \<Rightarrow> 'r op list \<Rightarrow> 'w state \<Rightarrow> 'w state" where
  "run P [] s = s"
| "run P (x # xs) s = run P xs (step P x s)"

text \<open>\<open>n\<close> calls of \<^verbatim>\<open>Close\<close> on the same \<^verbatim>\<open>File\<close>, with the result of each.\<close>

fun Close_n ::
  "('w, 'r) platform \<Rightarrow> nat \<Rightarrow> nat \<Rightarrow> 'w state \<Rightarrow> error option outcome list \<times> 'w state" where
  "Close_n P f 0 s = ([], s)"
| "Close_n P f (Suc n) s =
     (case Close P f s of (r, s1) \<Rightarrow>
        (case Close_n P f n s1 of (rs, s2) \<Rightarrow> (r # rs, s2)))"

section \<open>A platform in memory\<close>

text \<open>
  The locking primitives live in the platform files of the package and the two library
  calls in Go's library. The platform below gives all four a definite behaviour on a small
  file system: the content of each path, the open descriptors (each holds its lock from
  \<^verbatim>\<open>openFile\<close> to \<^verbatim>\<open>closeFile\<close>), and the failures the operating system will report, by
  descriptor number. Permission bits and contention between processes are not computed:
  an open that the system refuses for either reason is one of the failures in
  \<open>open_fault\<close> or \<open>lock_fault\<close>.
\<close>

record desc =
  d_path :: string
  d_flag :: flags
  d_off :: nat

record fs =
  files :: "string \<rightharpoonup> byte list"
  descs :: "nat \<rightharpoonup> desc"
  nextfd :: nat
  open_fault :: "nat \<Rightarrow> error option"
  lock_fault :: "nat \<Rightarrow> error option"
  close_fault :: "nat \<Rightarrow> error option"
  read_fault :: "nat \<Rightarrow> error option"
  write_fault :: "nat \<Rightarrow> error option"

text \<open>An \<^verbatim>\<open>io.Reader\<close>: the bytes it yields, then end of input or an error.\<close>

record reader =
  r_data :: "byte list"
  r_err :: "error option"

definition O_ACCMODE :: flags where "O_ACCMODE = 3"

definition write_access :: "flags \<Rightarrow> bool" where
  "write_access flag = (flag AND O_ACCMODE = O_WRONLY \<or> flag AND O_ACCMODE = O_RDWR)"

definition read_access :: "flags \<Rightarrow> bool" where
  "read_access flag = (flag AND O_ACCMODE = O_RDONLY \<or> flag AND O_ACCMODE = O_RDWR)"

definition EBADF :: error where
  "EBADF = ErrOther ''bad file descriptor''"

text \<open>
  Modelled from the spec: \<^verbatim>\<open>openFile\<close> (the primitive \<^verbatim>\<open>acquire\<close>), which is not in the
  source file. It opens the path as a standard open does (a missing file is created under
  \<^verbatim>\<open>O_CREATE\<close> and is an error otherwise, an existing one is emptied under \<^verbatim>\<open>O_TRUNC\<close>),
  then takes the lock; when the lock fails the descriptor is closed and the error returned.
\<close>

definition mem_openFile :: "string \<Rightarrow> flags \<Rightarrow> FileMode \<Rightarrow> fs \<Rightarrow> (error + os_File) \<times> fs" where
  "mem_openFile name flag perm w =
     (let d = nextfd w; w0 = w\<lparr>nextfd := Suc d\<rparr>
      in case open_fault w d of
           Some e \<Rightarrow> (Inl e, w0)
         | None \<Rightarrow>
             (case files w name of
                None \<Rightarrow>
                  if flag AND O_CREATE = 0 then (Inl (PathError ''open'' name ErrNotExist), w0)
                  else
                    (let w1 = w0\<lparr>files := (files w)(name \<mapsto> [])\<rparr>
                     in case lock_fault w d of
                          Some e \<Rightarrow> (Inl e, w1)
                        | None \<Rightarrow>
                            (Inr \<lparr>os_fd = d, os_name = name\<rparr>,
                             w1\<lparr>descs := (descs w)(d \<mapsto> \<lparr>d_path = name, d_flag = flag, d_off = 0\<rparr>)\<rparr>))
              | Some bs \<Rightarrow>
                  (let w1 = w0\<lparr>files := (files w)(name \<mapsto> (if flag AND O_TRUNC = 0 then bs else []))\<rparr>
                   in case lock_fault w d of
                        Some e \<Rightarrow> (Inl e, w1)
                      | None \<Rightarrow>
                          (Inr \<lparr>os_fd = d, os_name = name\<rparr>,
                           w1\<lparr>descs := (descs w)(d \<mapsto> \<lparr>d_path = name, d_flag = flag, d_off = 0\<rparr>)\<rparr>))))"

text \<open>
  Modelled from the spec: \<^verbatim>\<open>closeFile\<close> (the primitive \<^verbatim>\<open>release\<close>), which is not in the
  source file. It unlocks and closes the descriptor in one step and reports the error of
  doing so, if any.
\<close>

definition mem_closeFile :: "os_File option \<Rightarrow> fs \<Rightarrow> error option \<times> fs" where
  "mem_closeFile p w =
     (case p of
        None \<Rightarrow> (Some ErrInvalid, w)
      | Some fl \<Rightarrow>
          (case descs w (os_fd fl) of
             None \<Rightarrow> (Some (PathError ''close'' (os_name fl) ErrClosed), w)
           | Some d \<Rightarrow> (close_fault w (os_fd fl), w\<lparr>descs := (descs w)(os_fd fl := None)\<rparr>)))"

text \<open>
  Modelled from the spec: \<^verbatim>\<open>ioutil.ReadAll\<close> of Go's library, read through the descriptor:
  the bytes from the descriptor's offset to the end of the file.
\<close>

definition mem_ReadAll :: "os_File option \<Rightarrow> fs \<Rightarrow> (byte list \<times> error option) \<times> fs" where
  "mem_ReadAll p w =
     (case p of
        None \<Rightarrow> (([], Some ErrInvalid), w)
      | Some fl \<Rightarrow>
          (case descs w (os_fd fl) of
             None \<Rightarrow> (([], Some (PathError ''read'' (os_name fl) ErrClosed)), w)
           | Some d \<Rightarrow>
               if \<not> read_access (d_flag d) then
                 (([], Some (PathError ''read'' (os_name fl) EBADF)), w)
               else
                 (case read_fault w (os_fd fl) of
                    Some e \<Rightarrow> (([], Some e), w)
                  | None \<Rightarrow>
                      (let bs = (case files w (d_path d) of None \<Rightarrow> [] | Some xs \<Rightarrow> xs)
                       in ((drop (d_off d) bs, None),
                           w\<lparr>descs := (descs w)(os_fd fl \<mapsto> d\<lparr>d_off := max (d_off d) (length bs)\<rparr>)\<rparr>)))))"

text \<open>
  Modelled from the spec: \<^verbatim>\<open>io.Copy\<close> of Go's library, writing through the descriptor: the
  reader's bytes are written at the descriptor's offset, and the reader's error, if any, is
  the result.
\<close>

definition mem_Copy :: "os_File option \<Rightarrow> reader \<Rightarrow> fs \<Rightarrow> (int \<times> error option) \<times> fs" where
  "mem_Copy p c w =
     (case p of
        None \<Rightarrow> ((0, Some ErrInvalid), w)
      | Some fl \<Rightarrow>
          (case descs w (os_fd fl) of
             None \<Rightarrow> ((0, Some (PathError ''write'' (os_name fl) ErrClosed)), w)
           | Some d \<Rightarrow>
               if \<not> write_access (d_flag d) then
                 ((0, Some (PathError ''write'' (os_name fl) EBADF)), w)
               else
                 (case write_fault w (os_fd fl) of
                    Some e \<Rightarrow> ((0, Some e), w)
                  | None \<Rightarrow>
                      (let old = (case files w (d_path d) of None \<Rightarrow> [] | Some xs \<Rightarrow> xs);
                           new = take (d_off d) (old @ replicate (d_off d - length old) 0)
                                 @ r_data c @ drop (d_off d + length (r_data c)) old
                       in ((int (length (r_data c)), r_err c),
                           w\<lparr>files := (files w)(d_path d \<mapsto> new),
                             descs := (descs w)(os_fd fl \<mapsto> d\<lparr>d_off := d_off d + length (r_data c)\<rparr>)\<rparr>)))))"

definition memfs :: "(fs, reader) platform" where
  "memfs = \<lparr>openFile = mem_openFile, closeFile = mem_closeFile,
            ReadAll = mem_ReadAll, Copy = mem_Copy\<rparr>"

text \<open>An empty file system on which nothing fails, and a program that has opened nothing.\<close>

definition fs0 :: fs where
  "fs0 = \<lparr>files = Map.empty, descs = Map.empty, nextfd = 3,
          open_fault = (\<lambda>_. None), lock_fault = (\<lambda>_. None), close_fault = (\<lambda>_. None),
          read_fault = (\<lambda>_. None), write_fault = (\<lambda>_. None)\<rparr>"

definition init :: "'w \<Rightarrow> 'w state" where
  "init w = \<lparr>heap = Map.empty, finalizers = {}, nextaddr = 0, calls = [], world = w\<rparr>"

text \<open>
  States used as examples: a file system that already holds \<^verbatim>\<open>a.txt\<close>, the same one
  where every release reports an error, and two readers.
\<close>

definition fs_old :: fs where
  "fs_old = fs0\<lparr>files := [''a.txt'' \<mapsto> [1, 2, 3]]\<rparr>"

definition fs_close_fails :: fs where
  "fs_close_fails = fs_old\<lparr>close_fault := (\<lambda>_. Some (ErrOther ''close failed''))\<rparr>"

definition hello :: reader where
  "hello = \<lparr>r_data = [104, 101, 108, 108, 111], r_err = None\<rparr>"

definition bad_reader :: reader where
  "bad_reader = \<lparr>r_data = [104, 105], r_err = Some (ErrOther ''source failed'')\<rparr>"

section \<open>What one call does\<close>

lemma OpenFile_Inr:
  assumes "openFile P name flag perm (world s) = (Inr fl, w)"
  shows "OpenFile P name flag perm s =
    (Inr (nextaddr s),
     s\<lparr>heap := (heap s)(nextaddr s \<mapsto> \<lparr>osFile = Some fl, closed = False\<rparr>),
       finalizers := insert (nextaddr s) (finalizers s),
       nextaddr := Suc (nextaddr s),
       calls := calls s @ [CallOpenFile name flag perm (Inr fl)],
       world := w\<rparr>)"
  using assms by (simp add: OpenFile_def Let_def)

lemma OpenFile_Inl:
  assumes "openFile P name flag perm (world s) = (Inl err, w)"
  shows "OpenFile P name flag perm s =
    (Inl err,
     s\<lparr>heap := (heap s)(nextaddr s \<mapsto> \<lparr>osFile = None, closed = False\<rparr>),
       nextaddr := Suc (nextaddr s),
       calls := calls s @ [CallOpenFile name flag perm (Inl err)],
       world := w\<rparr>)"
  using assms by (simp add: OpenFile_def Let_def)

lemma OpenFile_returns_handle:
  assumes "OpenFile P name flag perm s = (Inr f, s1)"
  obtains fl w where "openFile P name flag perm (world s) = (Inr fl, w)"
    and "f = nextaddr s"
    and "s1 = s\<lparr>heap := (heap s)(nextaddr s \<mapsto> \<lparr>osFile = Some fl, closed = False\<rparr>),
       finalizers := insert (nextaddr s) (finalizers s),
       nextaddr := Suc (nextaddr s),
       calls := calls s @ [CallOpenFile name flag perm (Inr fl)],
       world := w\<rparr>"
proof (cases "openFile P name flag perm (world s)")
  case (Pair r w)
  show ?thesis
  proof (cases r)
    case (Inl err)
    with Pair assms show ?thesis by (simp add: OpenFile_Inl)
  next
    case (Inr fl)
    with Pair assms that show ?thesis by (auto simp: OpenFile_Inr)
  qed
qed

lemma Close_open:
  assumes "heap s f = Some obj" and "\<not> closed obj"
    and "closeFile P (osFile obj) (world s) = (err, w)"
  shows "Close P f s =
    (Return err,
     s\<lparr>heap := (heap s)(f \<mapsto> obj\<lparr>closed := True\<rparr>),
       finalizers := finalizers s - {f},
       calls := calls s @ [CallCloseFile (osFile obj) err],
       world := w\<rparr>)"
  using assms by (simp add: Close_def Let_def)

lemma Close_closed:
  assumes "heap s f = Some obj" and "closed obj" and "osFile obj = Some fl"
  shows "Close P f s = (Return (Some (PathError ''close'' (os_name fl) ErrClosed)), s)"
  using assms by (simp add: Close_def Name_def)

lemma Close_frame:
  "nextaddr (snd (Close P f s)) = nextaddr s"
  "g \<noteq> f \<Longrightarrow> heap (snd (Close P f s)) g = heap s g"
  "finalizers (snd (Close P f s)) \<subseteq> finalizers s"
  by (auto simp: Close_def Let_def split: option.splits outcome.splits prod.splits)

lemma Close_keeps_closed:
  "heap s f = Some obj \<Longrightarrow> closed obj \<Longrightarrow> heap (snd (Close P f s)) f = Some obj"
  by (auto simp: Close_def Let_def split: option.splits outcome.splits prod.splits)

lemma OpenFile_frame:
  "nextaddr (snd (OpenFile P name flag perm s)) = Suc (nextaddr s)"
  "g < nextaddr s \<Longrightarrow> heap (snd (OpenFile P name flag perm s)) g = heap s g"
  "finalizers (snd (OpenFile P name flag perm s)) \<subseteq> insert (nextaddr s) (finalizers s)"
  by (auto simp: OpenFile_def Let_def split: sum.splits prod.splits)


lemma Read_frame:
  "nextaddr (snd (Read P name s)) = Suc (nextaddr s)"
  "g < nextaddr s \<Longrightarrow> heap (snd (Read P name s)) g = heap s g"
  "finalizers (snd (Read P name s)) \<subseteq> finalizers s"
  by (auto simp: Read_def Open_def OpenFile_def Close_def Let_def
      split: sum.splits prod.splits option.splits outcome.splits)

lemma Write_frame:
  "nextaddr (snd (Write P name content perm s)) = Suc (nextaddr s)"
  "g < nextaddr s \<Longrightarrow> heap (snd (Write P name content perm s)) g = heap s g"
  "finalizers (snd (Write P name content perm s)) \<subseteq> finalizers s"
  by (auto simp: Write_def OpenFile_def Close_def Let_def
      split: sum.splits prod.splits option.splits outcome.splits)

lemma step_nextaddr: "nextaddr s \<le> nextaddr (step P x s)"
  by (cases x) (simp_all add: Open_def Create_def Edit_def OpenFile_frame Close_frame Read_frame Write_frame)

lemma run_nextaddr: "nextaddr s \<le> nextaddr (run P xs s)"
proof (induction xs arbitrary: s)
  case Nil
  show ?case by simp
next
  case (Cons x xs)
  have "nextaddr s \<le> nextaddr (step P x s)" by (rule step_nextaddr)
  also have "\<dots> \<le> nextaddr (run P xs (step P x s))" by (rule Cons.IH)
  finally show ?case by simp
qed

lemma step_heap_other:
  assumes "g < nextaddr s" and "x \<noteq> OpClose g"
  shows "heap (step P x s) g = heap s g"
  using assms
  by (cases x) (simp_all add: Open_def Create_def Edit_def OpenFile_frame Close_frame Read_frame Write_frame)

lemma step_keeps_closed:
  assumes "g < nextaddr s" and "heap s g = Some obj" and "closed obj"
  shows "heap (step P x s) g = Some obj"
proof (cases "x = OpClose g")
  case True
  with assms show ?thesis by (simp add: Close_keeps_closed)
next
  case False
  with assms show ?thesis by (simp add: step_heap_other)
qed

lemma run_keeps_closed:
  assumes "g < nextaddr s" and "heap s g = Some obj" and "closed obj"
  shows "heap (run P xs s) g = Some obj"
  using assms
proof (induction xs arbitrary: s)
  case Nil
  then show ?case by simp
next
  case (Cons x xs)
  have "g < nextaddr (step P x s)"
    using Cons.prems(1) step_nextaddr [of s P x] by simp
  moreover have "heap (step P x s) g = Some obj"
    using Cons.prems by (rule step_keeps_closed)
  ultimately show ?case using Cons.IH Cons.prems(3) by simp
qed

lemma run_heap_other:
  assumes "g < nextaddr s" and "OpClose g \<notin> set xs"
  shows "heap (run P xs s) g = heap s g"
  using assms
proof (induction xs arbitrary: s)
  case Nil
  then show ?case by simp
next
  case (Cons x xs)
  have "g < nextaddr (step P x s)"
    using Cons.prems(1) step_nextaddr [of s P x] by simp
  moreover have "heap (step P x s) g = heap s g"
    using Cons.prems by (intro step_heap_other) auto
  ultimately show ?case using Cons.IH Cons.prems(2) by simp
qed

lemma step_finalizers:
  assumes "g < nextaddr s" and "g \<notin> finalizers s"
  shows "g \<notin> finalizers (step P x s)"
proof (cases x)
  case (OpOpenFile name flag perm)
  then show ?thesis using assms OpenFile_frame(3) [of P name flag perm s] by auto
next
  case (OpOpen name)
  then show ?thesis using assms OpenFile_frame(3) [of P name O_RDONLY 0 s] by (auto simp: Open_def)
next
  case (OpCreate name)
  then show ?thesis using assms OpenFile_frame(3) [of P name _ 438 s] by (auto simp: Create_def)
next
  case (OpEdit name)
  then show ?thesis using assms OpenFile_frame(3) [of P name _ 438 s] by (auto simp: Edit_def)
next
  case (OpClose f)
  then show ?thesis using assms Close_frame(3) [of P f s] by auto
next
  case (OpRead name)
  then show ?thesis using assms Read_frame(3) [of P name s] by auto
next
  case (OpWrite name content perm)
  then show ?thesis using assms Write_frame(3) [of P name content perm s] by auto
qed

lemma run_finalizers:
  assumes "g < nextaddr s" and "g \<notin> finalizers s"
  shows "g \<notin> finalizers (run P xs s)"
  using assms
proof (induction xs arbitrary: s)
  case Nil
  then show ?case by simp
next
  case (Cons x xs)
  have "g < nextaddr (step P x s)"
    using Cons.prems(1) step_nextaddr [of s P x] by simp
  moreover have "g \<notin> finalizers (step P x s)"
    using Cons.prems by (rule step_finalizers)
  ultimately show ?case using Cons.IH by simp
qed

lemma OpenFile_finalizers_old:
  "g < nextaddr s \<Longrightarrow> (g \<in> finalizers (snd (OpenFile P name flag perm s))) = (g \<in> finalizers s)"
  by (auto simp: OpenFile_def Let_def split: sum.splits prod.splits)

lemma Close_finalizers_other:
  "g \<noteq> f \<Longrightarrow> (g \<in> finalizers (snd (Close P f s))) = (g \<in> finalizers s)"
  by (auto simp: Close_def Let_def split: option.splits outcome.splits prod.splits)

lemma Read_finalizers_old:
  "g < nextaddr s \<Longrightarrow> (g \<in> finalizers (snd (Read P name s))) = (g \<in> finalizers s)"
  by (auto simp: Read_def Open_def OpenFile_def Close_def Let_def
      split: sum.splits prod.splits option.splits outcome.splits)

lemma Write_finalizers_old:
  "g < nextaddr s \<Longrightarrow> (g \<in> finalizers (snd (Write P name content perm s))) = (g \<in> finalizers s)"
  by (auto simp: Write_def OpenFile_def Close_def Let_def
      split: sum.splits prod.splits option.splits outcome.splits)

lemma step_finalizers_other:
  assumes "g < nextaddr s" and "x \<noteq> OpClose g"
  shows "(g \<in> finalizers (step P x s)) = (g \<in> finalizers s)"
  using assms
  by (cases x)
    (simp_all add: Open_def Create_def Edit_def OpenFile_finalizers_old Close_finalizers_other
      Read_finalizers_old Write_finalizers_old)

lemma run_finalizers_other:
  assumes "g < nextaddr s" and "OpClose g \<notin> set xs"
  shows "(g \<in> finalizers (run P xs s)) = (g \<in> finalizers s)"
  using assms
proof (induction xs arbitrary: s)
  case Nil
  then show ?case by simp
next
  case (Cons x xs)
  have "g < nextaddr (step P x s)"
    using Cons.prems(1) step_nextaddr [of s P x] by simp
  moreover have "(g \<in> finalizers (step P x s)) = (g \<in> finalizers s)"
    using Cons.prems by (intro step_finalizers_other) auto
  ultimately show ?case using Cons.IH Cons.prems(2) by simp
qed

lemma unreachable_armed:
  "heap s f = Some obj \<Longrightarrow> osFile obj = Some fl \<Longrightarrow> f \<in> finalizers s \<Longrightarrow>
   fst (unreachable f s) = Panic (leak_message (os_name fl))"
  by (simp add: unreachable_def finalizer_def Name_def)

lemma unreachable_disarmed:
  "f \<notin> finalizers s \<Longrightarrow> fst (unreachable f s) = Return ()"
  by (simp add: unreachable_def split: option.splits)

lemma errors_Is_AlreadyClosed: "errors_Is (PathError ''close'' n ErrClosed) ErrClosed"
  by simp

lemma run_append: "run P (xs @ ys) s = run P ys (run P xs s)"
  by (induction xs arbitrary: s) simp_all

lemma Write_Inr:
  assumes "openFile P name (O_WRONLY OR O_CREATE OR O_TRUNC) perm (world s) = (Inr fl, w1)"
    and "Copy P (Some fl) content w1 = ((n, copyErr), w2)"
    and "closeFile P (Some fl) w2 = (closeErr, w3)"
  shows "Write P name content perm s =
    (Return (if copyErr = None then closeErr else copyErr),
     s\<lparr>heap := (heap s)(nextaddr s \<mapsto> \<lparr>osFile = Some fl, closed = True\<rparr>),
       finalizers := finalizers s - {nextaddr s},
       nextaddr := Suc (nextaddr s),
       calls := calls s @ [CallOpenFile name (O_WRONLY OR O_CREATE OR O_TRUNC) perm (Inr fl),
                           CallCopy (Some fl) (n, copyErr), CallCloseFile (Some fl) closeErr],
       world := w3\<rparr>)"
  using assms by (simp add: Write_def OpenFile_Inr Close_def Let_def)


lemma Read_Inr:
  assumes "openFile P name O_RDONLY 0 (world s) = (Inr fl, w1)"
    and "ReadAll P (Some fl) w1 = (res, w2)"
    and "closeFile P (Some fl) w2 = (closeErr, w3)"
  shows "Read P name s =
      (Return res,
       s\<lparr>heap := (heap s)(nextaddr s \<mapsto> \<lparr>osFile = Some fl, closed = True\<rparr>),
         finalizers := finalizers s - {nextaddr s},
         nextaddr := Suc (nextaddr s),
         calls := calls s @ [CallOpenFile name O_RDONLY 0 (Inr fl),
                             CallReadAll (Some fl) res, CallCloseFile (Some fl) closeErr],
         world := w3\<rparr>)"
  using assms by (simp add: Read_def Open_def OpenFile_Inr Close_def Let_def)

lemma mem_openFile_Inr:
  assumes "mem_openFile name flag perm w = (Inr fl, w')"
  shows "fl = \<lparr>os_fd = nextfd w, os_name = name\<rparr>
       \<and> w' = w\<lparr>files := (files w)(name \<mapsto>
                     (case files w name of None \<Rightarrow> [] | Some bs \<Rightarrow> if flag AND O_TRUNC = 0 then bs else [])),
                 descs := (descs w)(nextfd w \<mapsto> \<lparr>d_path = name, d_flag = flag, d_off = 0\<rparr>),
                 nextfd := Suc (nextfd w)\<rparr>"
proof (cases "open_fault w (nextfd w)")
  case (Some e)
  with assms show ?thesis by (simp add: mem_openFile_def Let_def)
next
  case None
  note of_none = None
  show ?thesis
  proof (cases "lock_fault w (nextfd w)")
    case (Some e)
    with assms of_none show ?thesis
      by (cases "files w name"; cases "flag AND O_CREATE = 0") (simp_all add: mem_openFile_def Let_def)
  next
    case None
    with assms of_none show ?thesis
      by (cases "files w name"; cases "flag AND O_CREATE = 0") (auto simp add: mem_openFile_def Let_def)
  qed
qed






section \<open>The platform in memory meets the contract of the primitives\<close>

lemmas flag_defs = O_RDONLY_def O_WRONLY_def O_RDWR_def O_CREATE_def O_TRUNC_def O_ACCMODE_def
  read_access_def write_access_def

lemmas memfs_defs = memfs_def mem_openFile_def mem_closeFile_def mem_ReadAll_def mem_Copy_def
  fs0_def fs_old_def fs_close_fails_def hello_def bad_reader_def init_def EBADF_def

lemmas op_defs = OpenFile_def Open_def Create_def Edit_def Close_def Read_def Write_def
  Name_def Let_def

lemma memfs_open_fails:
  assumes "openFile memfs n fg pm w = (Inl e, w')"
  shows "dom (descs w') = dom (descs w)"
proof (cases "open_fault w (nextfd w)")
  case (Some e')
  with assms show ?thesis by (auto simp: memfs_def mem_openFile_def Let_def)
next
  case None
  with assms show ?thesis
    by (cases "files w n"; cases "lock_fault w (nextfd w)"; cases "fg AND O_CREATE = 0")
      (auto simp: memfs_def mem_openFile_def Let_def)
qed

lemma memfs_open_locks:
  assumes "openFile memfs n fg pm w = (Inr fl, w')"
  shows "dom (descs w') = insert (os_fd fl) (dom (descs w))"
proof -
  from assms have "mem_openFile n fg pm w = (Inr fl, w')" by (simp add: memfs_def)
  from mem_openFile_Inr [OF this] show ?thesis by auto
qed

lemma memfs_read_keeps: "dom (descs (snd (ReadAll memfs p w))) = dom (descs w)"
  by (auto simp: memfs_def mem_ReadAll_def Let_def split: option.splits)

lemma memfs_close_unlocks:
  "dom (descs (snd (closeFile memfs (Some fl) w))) = dom (descs w) - {os_fd fl}"
  by (auto simp: memfs_def mem_closeFile_def split: option.splits)

lemma memfs_truncates:
  assumes "openFile memfs n fg pm w = (Inr fl, w')" and "fg AND O_TRUNC \<noteq> 0"
  shows "files w' n = Some []"
proof -
  from assms(1) have "mem_openFile n fg pm w = (Inr fl, w')" by (simp add: memfs_def)
  from mem_openFile_Inr [OF this] assms(2) show ?thesis by (simp split: option.splits)
qed

lemma memfs_preserves:
  assumes "openFile memfs n fg pm w = (Inr fl, w')" and "fg AND O_TRUNC = 0"
    and "files w n = Some bs"
  shows "files w' n = Some bs"
proof -
  from assms(1) have "mem_openFile n fg pm w = (Inr fl, w')" by (simp add: memfs_def)
  from mem_openFile_Inr [OF this] assms(2,3) show ?thesis by simp
qed

section \<open>Close\<close>

text \<open>
  C1. Take a handle returned by a successful \<^verbatim>\<open>OpenFile\<close> (\<^verbatim>\<open>Open\<close>, \<^verbatim>\<open>Create\<close> and \<^verbatim>\<open>Edit\<close>
  are \<^verbatim>\<open>OpenFile\<close> with fixed arguments). Whatever the client does before its first \<^verbatim>\<open>Close\<close>
  of the handle, that \<^verbatim>\<open>Close\<close> returns exactly what \<^verbatim>\<open>closeFile\<close> returned (nil or its
  error) and sets \<^verbatim>\<open>closed\<close>. Whatever the client does afterwards, every further \<^verbatim>\<open>Close\<close>
  of the handle returns \<^verbatim>\<open>&os.PathError{"close", f.Name(), os.ErrClosed}\<close> and changes
  nothing; \<^verbatim>\<open>errors.Is\<close> finds \<^verbatim>\<open>os.ErrClosed\<close> in that error.
\<close>

theorem Close_first_then_AlreadyClosed:
  assumes "OpenFile P name flag perm s = (Inr f, s1)"
    and "OpClose f \<notin> set before"
    and "Close P f (run P before s1) = (r, s2)"
  shows "\<exists>fl. heap s1 f = Some \<lparr>osFile = Some fl, closed = False\<rparr>
           \<and> r = Return (fst (closeFile P (Some fl) (world (run P before s1))))
           \<and> heap s2 f = Some \<lparr>osFile = Some fl, closed = True\<rparr>
           \<and> (\<forall>later. Close P f (run P later s2) =
                  (Return (Some (PathError ''close'' (os_name fl) ErrClosed)), run P later s2))
           \<and> errors_Is (PathError ''close'' (os_name fl) ErrClosed) ErrClosed"
proof -
  from assms(1) obtain fl w where
    f: "f = nextaddr s" and
    s1: "s1 = s\<lparr>heap := (heap s)(nextaddr s \<mapsto> \<lparr>osFile = Some fl, closed = False\<rparr>),
       finalizers := insert (nextaddr s) (finalizers s),
       nextaddr := Suc (nextaddr s),
       calls := calls s @ [CallOpenFile name flag perm (Inr fl)],
       world := w\<rparr>"
    by (rule OpenFile_returns_handle)
  let ?obj = "\<lparr>osFile = Some fl, closed = False\<rparr>"
  let ?t = "run P before s1"
  have h1: "heap s1 f = Some ?obj" and lt1: "f < nextaddr s1"
    by (simp_all add: f s1)
  have ht: "heap ?t f = Some ?obj"
    using run_heap_other [OF lt1 assms(2), of P] h1 by simp
  have ltt: "f < nextaddr ?t"
    using lt1 run_nextaddr [of s1 P before] by simp
  obtain err w' where cf: "closeFile P (osFile ?obj) (world ?t) = (err, w')"
    by (cases "closeFile P (osFile ?obj) (world ?t)")
  from Close_open [OF ht _ cf] assms(3)
  have r: "r = Return err"
    and s2: "s2 = ?t\<lparr>heap := (heap ?t)(f \<mapsto> ?obj\<lparr>closed := True\<rparr>),
       finalizers := finalizers ?t - {f},
       calls := calls ?t @ [CallCloseFile (osFile ?obj) err],
       world := w'\<rparr>"
    by simp_all
  have h2: "heap s2 f = Some \<lparr>osFile = Some fl, closed = True\<rparr>"
    by (simp add: s2)
  have lt2: "f < nextaddr s2"
    using ltt by (simp add: s2)
  have later: "Close P f (run P later s2) =
      (Return (Some (PathError ''close'' (os_name fl) ErrClosed)), run P later s2)" for later
  proof -
    have "heap (run P later s2) f = Some \<lparr>osFile = Some fl, closed = True\<rparr>"
      using lt2 h2 by (rule run_keeps_closed) simp
    then show ?thesis by (rule Close_closed) simp_all
  qed
  from h1 r cf h2 later show ?thesis by auto
qed

theorem Close_first_then_AlreadyClosed_witness:
  "let s1 = snd (OpenFile memfs ''a.txt'' (O_RDWR OR O_CREATE) 438 (init fs_close_fails));
       t = run memfs [OpRead ''b.txt''] s1;
       s2 = snd (Close memfs 0 t)
   in fst (OpenFile memfs ''a.txt'' (O_RDWR OR O_CREATE) 438 (init fs_close_fails)) = Inr 0
    \<and> fst (Close memfs 0 t) = Return (Some (ErrOther ''close failed''))
    \<and> fst (Close memfs 0 (run memfs [OpClose 0, OpRead ''a.txt''] s2)) =
         Return (Some (PathError ''close'' ''a.txt'' ErrClosed))"
proof -
  define s1 where "s1 = snd (OpenFile memfs ''a.txt'' (O_RDWR OR O_CREATE) 438 (init fs_close_fails))"
  define t where "t = run memfs [OpRead ''b.txt''] s1"
  define s2 where "s2 = snd (Close memfs 0 t)"
  have h1: "OpenFile memfs ''a.txt'' (O_RDWR OR O_CREATE) 438 (init fs_close_fails) = (Inr 0, s1)"
    by (simp add: s1_def prod_eq_iff op_defs memfs_defs flag_defs)
  have h2: "OpClose 0 \<notin> set [OpRead ''b.txt'' :: reader op]"
    by simp
  have h3: "Close memfs 0 (run memfs [OpRead ''b.txt''] s1) = (fst (Close memfs 0 t), s2)"
    by (simp add: s2_def t_def)
  from Close_first_then_AlreadyClosed [OF h1 h2 h3]
  obtain fl where a: "heap s1 0 = Some \<lparr>osFile = Some fl, closed = False\<rparr>"
    and b: "fst (Close memfs 0 t) = Return (fst (closeFile memfs (Some fl) (world t)))"
    and c: "\<And>later. Close memfs 0 (run memfs later s2) =
              (Return (Some (PathError ''close'' (os_name fl) ErrClosed)), run memfs later s2)"
    by (auto simp: t_def)
  have "heap s1 0 = Some \<lparr>osFile = Some \<lparr>os_fd = 3, os_name = ''a.txt''\<rparr>, closed = False\<rparr>"
    by (simp add: s1_def op_defs memfs_defs flag_defs)
  with a have fl: "fl = \<lparr>os_fd = 3, os_name = ''a.txt''\<rparr>"
    by simp
  have "fst (closeFile memfs (Some fl) (world t)) = Some (ErrOther ''close failed'')"
    by (simp add: fl t_def s1_def op_defs memfs_defs flag_defs)
  with b c [of "[OpClose 0, OpRead ''a.txt'']"] h1 fl
  have "fst (OpenFile memfs ''a.txt'' (O_RDWR OR O_CREATE) 438 (init fs_close_fails)) = Inr 0
    \<and> fst (Close memfs 0 t) = Return (Some (ErrOther ''close failed''))
    \<and> fst (Close memfs 0 (run memfs [OpClose 0, OpRead ''a.txt''] s2)) =
         Return (Some (PathError ''close'' ''a.txt'' ErrClosed))"
    by simp
  then show ?thesis
    unfolding Let_def s1_def t_def s2_def .
qed

text \<open>
  C10. \<^verbatim>\<open>closeFile\<close> is called at most once for a handle. The first \<^verbatim>\<open>Close\<close> of an open
  handle adds exactly one call of \<^verbatim>\<open>closeFile\<close> and leaves the handle closed whatever that call
  returned; any number of further calls of \<^verbatim>\<open>Close\<close> each return the already-closed error and
  leave the whole state, and with it the list of calls made, as it was.
\<close>

theorem closeFile_at_most_once:
  assumes "heap s f = Some obj" and "\<not> closed obj" and "osFile obj = Some fl"
    and "Close P f s = (r, s1)"
  shows "r = Return (fst (closeFile P (Some fl) (world s)))
       \<and> calls s1 = calls s @ [CallCloseFile (Some fl) (fst (closeFile P (Some fl) (world s)))]
       \<and> heap s1 f = Some (obj\<lparr>closed := True\<rparr>)
       \<and> Close_n P f n s1 =
           (replicate n (Return (Some (PathError ''close'' (os_name fl) ErrClosed))), s1)"
proof -
  obtain err w where cf: "closeFile P (osFile obj) (world s) = (err, w)"
    by (cases "closeFile P (osFile obj) (world s)")
  from Close_open [OF assms(1,2) cf] assms(4)
  have r: "r = Return err"
    and s1: "s1 = s\<lparr>heap := (heap s)(f \<mapsto> obj\<lparr>closed := True\<rparr>),
       finalizers := finalizers s - {f},
       calls := calls s @ [CallCloseFile (osFile obj) err],
       world := w\<rparr>"
    by simp_all
  have h1: "heap s1 f = Some (obj\<lparr>closed := True\<rparr>)"
    by (simp add: s1)
  have again: "Close P f s1 = (Return (Some (PathError ''close'' (os_name fl) ErrClosed)), s1)"
    using h1 by (rule Close_closed) (simp_all add: assms(3))
  have "Close_n P f n s1 =
      (replicate n (Return (Some (PathError ''close'' (os_name fl) ErrClosed))), s1)"
    by (induction n) (simp_all add: again)
  with r s1 h1 cf assms(3) show ?thesis by simp
qed

theorem closeFile_at_most_once_witness:
  "let s = snd (Create memfs ''a.txt'' (init fs_close_fails));
       s1 = snd (Close memfs 0 s)
   in fst (Close memfs 0 s) = Return (Some (ErrOther ''close failed''))
    \<and> calls s1 = calls s @ [CallCloseFile (Some \<lparr>os_fd = 3, os_name = ''a.txt''\<rparr>)
                                            (Some (ErrOther ''close failed''))]
    \<and> Close_n memfs 0 3 s1 =
         (replicate 3 (Return (Some (PathError ''close'' ''a.txt'' ErrClosed))), s1)"
proof -
  define s where "s = snd (Create memfs ''a.txt'' (init fs_close_fails))"
  define s1 where "s1 = snd (Close memfs 0 s)"
  let ?fl = "\<lparr>os_fd = 3, os_name = ''a.txt''\<rparr>"
  have h1: "heap s 0 = Some \<lparr>osFile = Some ?fl, closed = False\<rparr>"
    by (simp add: s_def op_defs memfs_defs flag_defs)
  have h2: "\<not> closed \<lparr>osFile = Some ?fl, closed = False\<rparr>"
    and h3: "osFile \<lparr>osFile = Some ?fl, closed = False\<rparr> = Some ?fl"
    by simp_all
  have h4: "Close memfs 0 s = (fst (Close memfs 0 s), s1)"
    by (simp add: s1_def)
  have "fst (closeFile memfs (Some ?fl) (world s)) = Some (ErrOther ''close failed'')"
    by (simp add: s_def op_defs memfs_defs flag_defs)
  with closeFile_at_most_once [OF h1 h2 h3 h4, of 3]
  have "fst (Close memfs 0 s) = Return (Some (ErrOther ''close failed''))
    \<and> calls s1 = calls s @ [CallCloseFile (Some ?fl) (Some (ErrOther ''close failed''))]
    \<and> Close_n memfs 0 3 s1 =
         (replicate 3 (Return (Some (PathError ''close'' ''a.txt'' ErrClosed))), s1)"
    by simp
  then show ?thesis
    unfolding Let_def s_def s1_def .
qed

section \<open>Write and Read\<close>

text \<open>
  C2. When \<^verbatim>\<open>Write\<close> has opened the file, its result is the error of \<^verbatim>\<open>io.Copy\<close> if there is
  one, whatever \<^verbatim>\<open>Close\<close> returned, and otherwise the result of \<^verbatim>\<open>Close\<close>, which here is
  the result of \<^verbatim>\<open>closeFile\<close>. So \<^verbatim>\<open>Write\<close> returns nil exactly when the copy and the close
  both succeeded. \<^verbatim>\<open>closeFile\<close> is called after the copy in every case.
\<close>

theorem Write_error_precedence:
  assumes "openFile P name (O_WRONLY OR O_CREATE OR O_TRUNC) perm (world s) = (Inr fl, w1)"
    and "Copy P (Some fl) content w1 = ((n, copyErr), w2)"
    and "closeFile P (Some fl) w2 = (closeErr, w3)"
  shows "fst (Write P name content perm s) = Return (if copyErr = None then closeErr else copyErr)
       \<and> (fst (Write P name content perm s) = Return None) = (copyErr = None \<and> closeErr = None)
       \<and> calls (snd (Write P name content perm s)) =
           calls s @ [CallOpenFile name (O_WRONLY OR O_CREATE OR O_TRUNC) perm (Inr fl),
                      CallCopy (Some fl) (n, copyErr), CallCloseFile (Some fl) closeErr]"
  using Write_Inr [OF assms] by auto

theorem Write_error_precedence_witness:
  "fst (Write memfs ''a.txt'' bad_reader 420 (init fs_close_fails)) =
     Return (Some (ErrOther ''source failed''))
   \<and> calls (snd (Write memfs ''a.txt'' bad_reader 420 (init fs_close_fails))) =
       [CallOpenFile ''a.txt'' (O_WRONLY OR O_CREATE OR O_TRUNC) 420
          (Inr \<lparr>os_fd = 3, os_name = ''a.txt''\<rparr>),
        CallCopy (Some \<lparr>os_fd = 3, os_name = ''a.txt''\<rparr>) (2, Some (ErrOther ''source failed'')),
        CallCloseFile (Some \<lparr>os_fd = 3, os_name = ''a.txt''\<rparr>) (Some (ErrOther ''close failed''))]"
proof -
  let ?fl = "\<lparr>os_fd = 3, os_name = ''a.txt''\<rparr>"
  define w1 where
    "w1 = snd (mem_openFile ''a.txt'' (O_WRONLY OR O_CREATE OR O_TRUNC) 420 fs_close_fails)"
  define w2 where "w2 = snd (mem_Copy (Some ?fl) bad_reader w1)"
  define w3 where "w3 = snd (mem_closeFile (Some ?fl) w2)"
  have h1: "openFile memfs ''a.txt'' (O_WRONLY OR O_CREATE OR O_TRUNC) 420
              (world (init fs_close_fails)) = (Inr ?fl, w1)"
    by (simp add: w1_def prod_eq_iff memfs_defs flag_defs Let_def)
  have h2: "Copy memfs (Some ?fl) bad_reader w1 = ((2, Some (ErrOther ''source failed'')), w2)"
    by (simp add: w2_def w1_def prod_eq_iff memfs_defs flag_defs Let_def)
  have h3: "closeFile memfs (Some ?fl) w2 = (Some (ErrOther ''close failed''), w3)"
    by (simp add: w3_def w2_def w1_def prod_eq_iff memfs_defs flag_defs Let_def)
  from Write_error_precedence [OF h1 h2 h3] show ?thesis
    by (simp add: init_def)
qed



text \<open>
  C3. \<^verbatim>\<open>Read\<close> closes the handle it opened before it returns, whether \<^verbatim>\<open>ioutil.ReadAll\<close>
  succeeded or failed: the calls it makes are the open, the read and \<^verbatim>\<open>closeFile\<close> on the
  opened file, in this order; the handle is left closed and without a finalizer. When the
  open fails, the open is the only call, and no finalizer is set. \<open>held\<close> is the set of
  descriptors that hold a lock; for primitives that keep the contract of the specification
  (a failed acquire leaves no lock, a successful one adds the lock of its descriptor,
  reading changes no lock, release removes the lock of its descriptor), no lock that
  \<^verbatim>\<open>Read\<close> took is held when it returns.
\<close>

theorem Read_releases_on_every_path:
  assumes open_fails: "\<forall>n fg pm w e w'. openFile P n fg pm w = (Inl e, w') \<longrightarrow> held w' = held w"
    and open_locks: "\<forall>n fg pm w fl w'. openFile P n fg pm w = (Inr fl, w') \<longrightarrow>
                       held w' = insert (os_fd fl) (held w)"
    and read_keeps: "\<forall>p w. held (snd (ReadAll P p w)) = held w"
    and close_unlocks: "\<forall>fl w. held (snd (closeFile P (Some fl) w)) = held w - {os_fd fl}"
  shows "case fst (openFile P name O_RDONLY 0 (world s)) of
           Inl err \<Rightarrow>
              fst (Read P name s) = Return ([], Some err)
            \<and> calls (snd (Read P name s)) = calls s @ [CallOpenFile name O_RDONLY 0 (Inl err)]
            \<and> finalizers (snd (Read P name s)) = finalizers s
            \<and> held (world (snd (Read P name s))) = held (world s)
         | Inr fl \<Rightarrow>
              (\<exists>res closeErr.
                  fst (Read P name s) = Return res
                \<and> calls (snd (Read P name s)) =
                    calls s @ [CallOpenFile name O_RDONLY 0 (Inr fl),
                               CallReadAll (Some fl) res, CallCloseFile (Some fl) closeErr])
            \<and> heap (snd (Read P name s)) (nextaddr s) = Some \<lparr>osFile = Some fl, closed = True\<rparr>
            \<and> nextaddr s \<notin> finalizers (snd (Read P name s))
            \<and> held (world (snd (Read P name s))) = held (world s) - {os_fd fl}"
proof (cases "openFile P name O_RDONLY 0 (world s)")
  case (Pair r w1)
  show ?thesis
  proof (cases r)
    case (Inl err)
    with Pair have op: "openFile P name O_RDONLY 0 (world s) = (Inl err, w1)" by simp
    from open_fails op have "held w1 = held (world s)" by blast
    then show ?thesis
      by (simp add: op Read_def Open_def OpenFile_Inl [OF op])
  next
    case (Inr fl)
    with Pair have op: "openFile P name O_RDONLY 0 (world s) = (Inr fl, w1)" by simp
    obtain res w2 where rd: "ReadAll P (Some fl) w1 = (res, w2)"
      by (cases "ReadAll P (Some fl) w1")
    obtain closeErr w3 where cl: "closeFile P (Some fl) w2 = (closeErr, w3)"
      by (cases "closeFile P (Some fl) w2")
    note R = Read_Inr [OF op rd cl]
    have "held w1 = insert (os_fd fl) (held (world s))"
      using open_locks op by blast
    moreover have "held w2 = held w1"
      using read_keeps [rule_format, of "Some fl" w1] by (simp add: rd)
    moreover have "held w3 = held w2 - {os_fd fl}"
      using close_unlocks [rule_format, of fl w2] by (simp add: cl)
    ultimately have "held w3 = held (world s) - {os_fd fl}" by auto
    then show ?thesis by (simp add: op R)
  qed
qed

theorem Read_releases_on_every_path_witness:
  "heap (snd (Read memfs ''a.txt'' (init fs_close_fails))) 0 =
     Some \<lparr>osFile = Some \<lparr>os_fd = 3, os_name = ''a.txt''\<rparr>, closed = True\<rparr>
   \<and> 0 \<notin> finalizers (snd (Read memfs ''a.txt'' (init fs_close_fails)))
   \<and> dom (descs (world (snd (Read memfs ''a.txt'' (init fs_close_fails))))) = {}
   \<and> fst (Read memfs ''b.txt'' (init fs_close_fails)) =
       Return ([], Some (PathError ''open'' ''b.txt'' ErrNotExist))
   \<and> dom (descs (world (snd (Read memfs ''b.txt'' (init fs_close_fails))))) = {}"
proof -
  have c1: "\<forall>n fg pm w e w'. openFile memfs n fg pm w = (Inl e, w') \<longrightarrow>
              dom (descs w') = dom (descs w)"
    using memfs_open_fails by blast
  have c2: "\<forall>n fg pm w fl w'. openFile memfs n fg pm w = (Inr fl, w') \<longrightarrow>
              dom (descs w') = insert (os_fd fl) (dom (descs w))"
    using memfs_open_locks by blast
  have c3: "\<forall>p w. dom (descs (snd (ReadAll memfs p w))) = dom (descs w)"
    by (simp add: memfs_read_keeps)
  have c4: "\<forall>fl w. dom (descs (snd (closeFile memfs (Some fl) w))) = dom (descs w) - {os_fd fl}"
    by (simp add: memfs_close_unlocks)
  note contract = c1 c2 c3 c4
  note on_a = Read_releases_on_every_path [where P = memfs and held = "\<lambda>w. dom (descs w)"
      and name = "''a.txt''" and s = "init fs_close_fails", OF contract]
  note on_b = Read_releases_on_every_path [where P = memfs and held = "\<lambda>w. dom (descs w)"
      and name = "''b.txt''" and s = "init fs_close_fails", OF contract]
  have a: "fst (openFile memfs ''a.txt'' O_RDONLY 0 (world (init fs_close_fails))) =
      Inr \<lparr>os_fd = 3, os_name = ''a.txt''\<rparr>"
    by (simp add: memfs_defs flag_defs Let_def)
  have b: "fst (openFile memfs ''b.txt'' O_RDONLY 0 (world (init fs_close_fails))) =
      Inl (PathError ''open'' ''b.txt'' ErrNotExist)"
    by (simp add: memfs_defs flag_defs Let_def)
  have c: "nextaddr (init fs_close_fails) = 0" "dom (descs (world (init fs_close_fails))) = {}"
    by (simp_all add: memfs_defs)
  from on_a on_b
  show ?thesis
    by (simp add: a b c)
qed



section \<open>The leak guard\<close>

text \<open>
  C5. \<^verbatim>\<open>OpenFile\<close> sets the finalizer exactly when the primitive succeeds. When \<^verbatim>\<open>openFile\<close>
  returns an error, \<^verbatim>\<open>OpenFile\<close> returns that error and nil, and the set of finalizers is as
  before. When it returns a file, \<^verbatim>\<open>OpenFile\<close> returns the new handle with a finalizer set
  on it, and as long as the client does not \<^verbatim>\<open>Close\<close> the handle, its becoming unreachable
  panics with the message that names \<^verbatim>\<open>f.Name()\<close>, the name of the file that the primitive
  returned (the path, for a primitive that opens the path it is given).
\<close>

theorem OpenFile_arms_leak_guard:
  "case openFile P name flag perm (world s) of
     (Inl err, w) \<Rightarrow>
        fst (OpenFile P name flag perm s) = Inl err
      \<and> finalizers (snd (OpenFile P name flag perm s)) = finalizers s
      \<and> heap (snd (OpenFile P name flag perm s)) (nextaddr s) = Some \<lparr>osFile = None, closed = False\<rparr>
   | (Inr fl, w) \<Rightarrow>
        fst (OpenFile P name flag perm s) = Inr (nextaddr s)
      \<and> finalizers (snd (OpenFile P name flag perm s)) = insert (nextaddr s) (finalizers s)
      \<and> heap (snd (OpenFile P name flag perm s)) (nextaddr s) = Some \<lparr>osFile = Some fl, closed = False\<rparr>
      \<and> (\<forall>xs. OpClose (nextaddr s) \<notin> set xs \<longrightarrow>
            fst (unreachable (nextaddr s) (run P xs (snd (OpenFile P name flag perm s))))
              = Panic (leak_message (os_name fl)))"
proof (cases "openFile P name flag perm (world s)")
  case (Pair r w)
  show ?thesis
  proof (cases r)
    case (Inl err)
    with Pair show ?thesis by (simp add: OpenFile_Inl)
  next
    case (Inr fl)
    let ?f = "nextaddr s"
    let ?s1 = "snd (OpenFile P name flag perm s)"
    from Inr Pair have op: "openFile P name flag perm (world s) = (Inr fl, w)" by simp
    have lt: "?f < nextaddr ?s1" and h: "heap ?s1 ?f = Some \<lparr>osFile = Some fl, closed = False\<rparr>"
      and fin: "?f \<in> finalizers ?s1"
      by (simp_all add: OpenFile_Inr [OF op])
    have "fst (unreachable ?f (run P xs ?s1)) = Panic (leak_message (os_name fl))"
      if "OpClose ?f \<notin> set xs" for xs
    proof (rule unreachable_armed)
      show "heap (run P xs ?s1) ?f = Some \<lparr>osFile = Some fl, closed = False\<rparr>"
        using run_heap_other [OF lt that, of P] h by simp
      show "osFile \<lparr>osFile = Some fl, closed = False\<rparr> = Some fl" by simp
      show "?f \<in> finalizers (run P xs ?s1)"
        using run_finalizers_other [OF lt that, of P] fin by simp
    qed
    then show ?thesis using op by (simp add: OpenFile_Inr [OF op])
  qed
qed

theorem OpenFile_arms_leak_guard_witness:
  "fst (OpenFile memfs ''a.txt'' O_RDONLY 0 (init fs_old)) = Inr 0
   \<and> fst (unreachable 0 (run memfs [OpRead ''b.txt'', OpRead ''a.txt'']
            (snd (OpenFile memfs ''a.txt'' O_RDONLY 0 (init fs_old))))) =
       Panic ''lockedfile.File a.txt became unreachable without a call to Close''
   \<and> fst (OpenFile memfs ''b.txt'' O_RDONLY 0 (init fs_old)) =
       Inl (PathError ''open'' ''b.txt'' ErrNotExist)
   \<and> finalizers (snd (OpenFile memfs ''b.txt'' O_RDONLY 0 (init fs_old))) = {}"
proof -
  define s1 where "s1 = snd (OpenFile memfs ''a.txt'' O_RDONLY 0 (init fs_old))"
  define w1 where "w1 = snd (mem_openFile ''a.txt'' O_RDONLY 0 fs_old)"
  define v1 where "v1 = snd (mem_openFile ''b.txt'' O_RDONLY 0 fs_old)"
  have h1: "openFile memfs ''a.txt'' O_RDONLY 0 (world (init fs_old)) =
      (Inr \<lparr>os_fd = 3, os_name = ''a.txt''\<rparr>, w1)"
    by (simp add: w1_def prod_eq_iff memfs_defs flag_defs Let_def)
  have h2: "openFile memfs ''b.txt'' O_RDONLY 0 (world (init fs_old)) =
      (Inl (PathError ''open'' ''b.txt'' ErrNotExist), v1)"
    by (simp add: v1_def prod_eq_iff memfs_defs flag_defs Let_def)
  have i: "nextaddr (init fs_old) = 0" "finalizers (init fs_old) = {}"
    by (simp_all add: init_def)
  from OpenFile_arms_leak_guard [of memfs "''a.txt''" O_RDONLY 0 "init fs_old"]
  have a: "fst (OpenFile memfs ''a.txt'' O_RDONLY 0 (init fs_old)) = Inr 0"
    and b: "\<And>xs. OpClose 0 \<notin> set xs \<Longrightarrow>
              fst (unreachable 0 (run memfs xs s1)) = Panic (leak_message ''a.txt'')"
    by (simp_all add: h1 i s1_def)
  have c: "fst (unreachable 0 (run memfs [OpRead ''b.txt'', OpRead ''a.txt''] s1)) =
      Panic ''lockedfile.File a.txt became unreachable without a call to Close''"
    by (subst b) (simp_all add: leak_message_def)
  from OpenFile_arms_leak_guard [of memfs "''b.txt''" O_RDONLY 0 "init fs_old"]
  have d: "fst (OpenFile memfs ''b.txt'' O_RDONLY 0 (init fs_old)) =
        Inl (PathError ''open'' ''b.txt'' ErrNotExist)
      \<and> finalizers (snd (OpenFile memfs ''b.txt'' O_RDONLY 0 (init fs_old))) = {}"
    by (simp add: h2 i)
  from a c d show ?thesis
    unfolding s1_def by simp
qed

text \<open>
  C6. The first \<^verbatim>\<open>Close\<close> of a handle clears its finalizer whatever \<^verbatim>\<open>closeFile\<close> returned,
  an error included. Whatever the client does afterwards, the handle's becoming unreachable
  runs no finalizer and so does not panic.
\<close>

theorem Close_disarms_leak_guard:
  assumes "heap s f = Some obj" and "\<not> closed obj" and "f < nextaddr s"
    and "closeFile P (osFile obj) (world s) = (err, w)"
  shows "fst (Close P f s) = Return err
       \<and> f \<notin> finalizers (snd (Close P f s))
       \<and> (\<forall>xs. fst (unreachable f (run P xs (snd (Close P f s)))) = Return ())"
proof -
  let ?s1 = "snd (Close P f s)"
  note c = Close_open [OF assms(1,2,4)]
  have nf: "f \<notin> finalizers ?s1" and lt: "f < nextaddr ?s1"
    using assms(3) by (simp_all add: c)
  have "fst (unreachable f (run P xs ?s1)) = Return ()" for xs
    using run_finalizers [OF lt nf] by (rule unreachable_disarmed)
  with nf show ?thesis by (simp add: c)
qed

theorem Close_disarms_leak_guard_witness:
  "let s = snd (Create memfs ''a.txt'' (init fs_close_fails))
   in 0 \<in> finalizers s
    \<and> fst (Close memfs 0 s) = Return (Some (ErrOther ''close failed''))
    \<and> 0 \<notin> finalizers (snd (Close memfs 0 s))
    \<and> fst (unreachable 0 (run memfs [OpRead ''a.txt'', OpClose 0] (snd (Close memfs 0 s)))) =
        Return ()"
proof -
  define s where "s = snd (Create memfs ''a.txt'' (init fs_close_fails))"
  let ?fl = "\<lparr>os_fd = 3, os_name = ''a.txt''\<rparr>"
  let ?obj = "\<lparr>osFile = Some ?fl, closed = False\<rparr>"
  define w where "w = snd (closeFile memfs (osFile ?obj) (world s))"
  have h1: "heap s 0 = Some ?obj"
    by (simp add: s_def op_defs memfs_defs flag_defs)
  have h2: "\<not> closed ?obj"
    by simp
  have h3: "0 < nextaddr s"
    by (simp add: s_def op_defs memfs_defs flag_defs)
  have h4: "closeFile memfs (osFile ?obj) (world s) = (Some (ErrOther ''close failed''), w)"
    by (simp add: w_def s_def prod_eq_iff op_defs memfs_defs flag_defs)
  have armed: "0 \<in> finalizers s"
    by (simp add: s_def op_defs memfs_defs flag_defs)
  from Close_disarms_leak_guard [OF h1 h2 h3 h4]
  have "fst (Close memfs 0 s) = Return (Some (ErrOther ''close failed''))"
    and "0 \<notin> finalizers (snd (Close memfs 0 s))"
    and "fst (unreachable 0 (run memfs [OpRead ''a.txt'', OpClose 0] (snd (Close memfs 0 s)))) =
        Return ()"
    by blast+
  with armed have "0 \<in> finalizers s
    \<and> fst (Close memfs 0 s) = Return (Some (ErrOther ''close failed''))
    \<and> 0 \<notin> finalizers (snd (Close memfs 0 s))
    \<and> fst (unreachable 0 (run memfs [OpRead ''a.txt'', OpClose 0] (snd (Close memfs 0 s)))) =
        Return ()"
    by blast
  then show ?thesis
    unfolding Let_def s_def .
qed

section \<open>The closed flag\<close>

text \<open>
  C8. The \<^verbatim>\<open>closed\<close> field of a handle only goes from false to true. It is false in the
  handle that \<^verbatim>\<open>OpenFile\<close> returns; it stays false as long as the client does not \<^verbatim>\<open>Close\<close>
  this handle, whatever else it calls; a \<^verbatim>\<open>Close\<close> of the handle makes it true whatever
  \<^verbatim>\<open>closeFile\<close> returned; and once it is true it is true after every further sequence of
  calls.
\<close>

theorem closed_flag_monotonic:
  assumes "OpenFile P name flag perm s = (Inr f, s1)"
  shows "map_option closed (heap s1 f) = Some False
       \<and> (OpClose f \<notin> set xs \<longrightarrow> map_option closed (heap (run P xs s1) f) = Some False)
       \<and> (map_option closed (heap (run P xs s1) f) = Some False \<longrightarrow>
            map_option closed (heap (step P (OpClose f) (run P xs s1)) f) = Some True)
       \<and> (map_option closed (heap (run P xs s1) f) = Some True \<longrightarrow>
            map_option closed (heap (run P (xs @ ys) s1) f) = Some True)"
proof -
  from assms have h1: "map_option closed (heap s1 f) = Some False" and lt1: "f < nextaddr s1"
    by (rule OpenFile_returns_handle, simp)+
  let ?t = "run P xs s1"
  have ltt: "f < nextaddr ?t"
    using lt1 run_nextaddr [of s1 P xs] by simp
  have a: "map_option closed (heap ?t f) = Some False" if "OpClose f \<notin> set xs"
    using run_heap_other [OF lt1 that, of P] h1 by simp
  have b: "map_option closed (heap (step P (OpClose f) ?t) f) = Some True"
    if "map_option closed (heap ?t f) = Some False"
    using that by (auto simp: Close_def Let_def split: prod.splits)
  have c: "map_option closed (heap (run P (xs @ ys) s1) f) = Some True"
    if "map_option closed (heap ?t f) = Some True"
  proof -
    from that obtain obj where o: "heap ?t f = Some obj" "closed obj" by auto
    from ltt o have "heap (run P ys ?t) f = Some obj" by (rule run_keeps_closed)
    with o show ?thesis by (simp add: run_append)
  qed
  from h1 a b c show ?thesis by blast
qed

theorem closed_flag_monotonic_witness:
  "let s1 = snd (OpenFile memfs ''a.txt'' (O_RDWR OR O_CREATE) 438 (init fs_close_fails))
   in fst (OpenFile memfs ''a.txt'' (O_RDWR OR O_CREATE) 438 (init fs_close_fails)) = Inr 0
    \<and> map_option closed (heap s1 0) = Some False
    \<and> map_option closed (heap (run memfs [OpRead ''a.txt''] s1) 0) = Some False
    \<and> map_option closed (heap (run memfs [OpRead ''a.txt'', OpClose 0] s1) 0) = Some True
    \<and> map_option closed
         (heap (run memfs ([OpRead ''a.txt'', OpClose 0] @
                           [OpClose 0, OpWrite ''a.txt'' hello 420, OpCreate ''a.txt'']) s1) 0) =
        Some True"
proof -
  define s1 where "s1 = snd (OpenFile memfs ''a.txt'' (O_RDWR OR O_CREATE) 438 (init fs_close_fails))"
  let ?xs = "[OpRead ''a.txt''] :: reader op list"
  let ?xs' = "[OpRead ''a.txt'', OpClose 0] :: reader op list"
  let ?ys = "[OpClose 0, OpWrite ''a.txt'' hello 420, OpCreate ''a.txt'']"
  have h1: "OpenFile memfs ''a.txt'' (O_RDWR OR O_CREATE) 438 (init fs_close_fails) = (Inr 0, s1)"
    by (simp add: s1_def prod_eq_iff op_defs memfs_defs flag_defs)
  note first = closed_flag_monotonic [OF h1, where xs = ?xs]
  note second = closed_flag_monotonic [OF h1, where xs = ?xs' and ys = ?ys]
  from first have a: "map_option closed (heap s1 0) = Some False"
    and b: "map_option closed (heap (run memfs ?xs s1) 0) = Some False"
    by simp_all
  from first b have "map_option closed (heap (step memfs (OpClose 0) (run memfs ?xs s1)) 0) = Some True"
    by blast
  moreover have "run memfs ?xs' s1 = step memfs (OpClose 0) (run memfs ?xs s1)"
    by (simp del: step.simps)
  ultimately have c: "map_option closed (heap (run memfs ?xs' s1) 0) = Some True"
    by (simp del: step.simps run.simps)
  with second have d: "map_option closed (heap (run memfs (?xs' @ ?ys) s1) 0) = Some True"
    by blast
  from h1 a b c d
  have "fst (OpenFile memfs ''a.txt'' (O_RDWR OR O_CREATE) 438 (init fs_close_fails)) = Inr 0
    \<and> map_option closed (heap s1 0) = Some False
    \<and> map_option closed (heap (run memfs ?xs s1) 0) = Some False
    \<and> map_option closed (heap (run memfs ?xs' s1) 0) = Some True
    \<and> map_option closed (heap (run memfs (?xs' @ ?ys) s1) 0) = Some True"
    by (simp del: step.simps run.simps append.simps)
  then show ?thesis
    unfolding Let_def s1_def .
qed

section \<open>Open, Create and Edit\<close>

text \<open>
  C7. \<^verbatim>\<open>Open\<close> calls the primitive with the flag \<^verbatim>\<open>O_RDONLY\<close> and permission 0;
  \<^verbatim>\<open>Create\<close> with \<^verbatim>\<open>O_RDWR|O_CREATE|O_TRUNC\<close> and permission 0666; \<^verbatim>\<open>Edit\<close> with
  \<^verbatim>\<open>O_RDWR|O_CREATE\<close> and permission 0666. The first asks for no write access; the other
  two ask for write access (through \<^verbatim>\<open>O_RDWR\<close>), \<^verbatim>\<open>Create\<close> with truncation and \<^verbatim>\<open>Edit\<close>
  without. \<open>content\<close> is the content of a path in the file system; for a primitive that
  opens as a standard open does (under \<^verbatim>\<open>O_TRUNC\<close> the opened file is empty, without it an
  existing file keeps its bytes), a successful \<^verbatim>\<open>Create\<close> leaves the file empty and a
  successful \<^verbatim>\<open>Edit\<close> of an existing file leaves its bytes as they were.
\<close>

theorem named_opens_flags:
  assumes truncates: "\<forall>n fg pm w fl w'. openFile P n fg pm w = (Inr fl, w') \<longrightarrow>
                        fg AND O_TRUNC \<noteq> 0 \<longrightarrow> content w' n = Some []"
    and preserves: "\<forall>n fg pm w fl w' bs. openFile P n fg pm w = (Inr fl, w') \<longrightarrow>
                        fg AND O_TRUNC = 0 \<longrightarrow> content w n = Some bs \<longrightarrow> content w' n = Some bs"
  shows "calls (snd (Open P name s)) =
           calls s @ [CallOpenFile name O_RDONLY 0 (fst (openFile P name O_RDONLY 0 (world s)))]
       \<and> calls (snd (Create P name s)) =
           calls s @ [CallOpenFile name (O_RDWR OR O_CREATE OR O_TRUNC) 438
                        (fst (openFile P name (O_RDWR OR O_CREATE OR O_TRUNC) 438 (world s)))]
       \<and> calls (snd (Edit P name s)) =
           calls s @ [CallOpenFile name (O_RDWR OR O_CREATE) 438
                        (fst (openFile P name (O_RDWR OR O_CREATE) 438 (world s)))]
       \<and> \<not> write_access O_RDONLY
       \<and> write_access (O_RDWR OR O_CREATE OR O_TRUNC)
       \<and> write_access (O_RDWR OR O_CREATE)
       \<and> O_RDONLY AND (O_CREATE OR O_TRUNC) = 0
       \<and> (O_RDWR OR O_CREATE OR O_TRUNC) AND O_CREATE \<noteq> 0
       \<and> (O_RDWR OR O_CREATE OR O_TRUNC) AND O_TRUNC \<noteq> 0
       \<and> (O_RDWR OR O_CREATE) AND O_CREATE \<noteq> 0
       \<and> (O_RDWR OR O_CREATE) AND O_TRUNC = 0
       \<and> (438 :: FileMode) = 6 * 8 * 8 + 6 * 8 + 6
       \<and> (\<forall>f s1. Create P name s = (Inr f, s1) \<longrightarrow> content (world s1) name = Some [])
       \<and> (\<forall>f s1 bs. Edit P name s = (Inr f, s1) \<longrightarrow> content (world s) name = Some bs \<longrightarrow>
             content (world s1) name = Some bs)"
proof -
  have c: "calls (snd (OpenFile P name fg pm s)) =
      calls s @ [CallOpenFile name fg pm (fst (openFile P name fg pm (world s)))]" for fg pm
    by (simp add: OpenFile_def Let_def split: prod.splits sum.splits)
  have fl: "\<not> write_access O_RDONLY" "write_access (O_RDWR OR O_CREATE OR O_TRUNC)"
    "write_access (O_RDWR OR O_CREATE)" "(O_RDWR OR O_CREATE OR O_TRUNC) AND O_TRUNC \<noteq> 0"
    "(O_RDWR OR O_CREATE) AND O_TRUNC = 0" "O_RDONLY AND (O_CREATE OR O_TRUNC) = 0"
    "(O_RDWR OR O_CREATE OR O_TRUNC) AND O_CREATE \<noteq> 0" "(O_RDWR OR O_CREATE) AND O_CREATE \<noteq> 0"
    by (simp_all add: flag_defs)
  have cr: "content (world s1) name = Some []" if "Create P name s = (Inr f, s1)" for f s1
  proof -
    from that obtain fl w where
      "openFile P name (O_RDWR OR O_CREATE OR O_TRUNC) 438 (world s) = (Inr fl, w)"
      and "world s1 = w"
      unfolding Create_def by (rule OpenFile_returns_handle) simp
    with truncates fl(4) show ?thesis by blast
  qed
  have ed: "content (world s1) name = Some bs"
    if "Edit P name s = (Inr f, s1)" and "content (world s) name = Some bs" for f s1 bs
  proof -
    from that(1) obtain fl w where
      "openFile P name (O_RDWR OR O_CREATE) 438 (world s) = (Inr fl, w)"
      and "world s1 = w"
      unfolding Edit_def by (rule OpenFile_returns_handle) simp
    with preserves fl(5) that(2) show ?thesis by blast
  qed
  from c fl cr ed show ?thesis
    by (simp add: Open_def Create_def Edit_def)
qed

theorem named_opens_flags_witness:
  "files (world (init fs_old)) ''a.txt'' = Some [1, 2, 3]
   \<and> fst (Create memfs ''a.txt'' (init fs_old)) = Inr 0
   \<and> files (world (snd (Create memfs ''a.txt'' (init fs_old)))) ''a.txt'' = Some []
   \<and> fst (Edit memfs ''a.txt'' (init fs_old)) = Inr 0
   \<and> files (world (snd (Edit memfs ''a.txt'' (init fs_old)))) ''a.txt'' = Some [1, 2, 3]
   \<and> calls (snd (Create memfs ''a.txt'' (init fs_old))) =
       [CallOpenFile ''a.txt'' 578 438 (Inr \<lparr>os_fd = 3, os_name = ''a.txt''\<rparr>)]"
proof -
  have t: "\<forall>n fg pm w fl w'. openFile memfs n fg pm w = (Inr fl, w') \<longrightarrow>
             fg AND O_TRUNC \<noteq> 0 \<longrightarrow> files w' n = Some []"
    using memfs_truncates by blast
  have p: "\<forall>n fg pm w fl w' bs. openFile memfs n fg pm w = (Inr fl, w') \<longrightarrow>
             fg AND O_TRUNC = 0 \<longrightarrow> files w n = Some bs \<longrightarrow> files w' n = Some bs"
    using memfs_preserves by blast
  note inst = named_opens_flags [where P = memfs and content = files and name = "''a.txt''"
      and s = "init fs_old", OF t p]
  have old: "files (world (init fs_old)) ''a.txt'' = Some [1, 2, 3]"
    by (simp add: memfs_defs)
  have h1: "Create memfs ''a.txt'' (init fs_old) = (Inr 0, snd (Create memfs ''a.txt'' (init fs_old)))"
    by (simp add: prod_eq_iff op_defs memfs_defs flag_defs)
  have h2: "Edit memfs ''a.txt'' (init fs_old) = (Inr 0, snd (Edit memfs ''a.txt'' (init fs_old)))"
    by (simp add: prod_eq_iff op_defs memfs_defs flag_defs)
  have o: "fst (openFile memfs ''a.txt'' (O_RDWR OR O_CREATE OR O_TRUNC) 438 (world (init fs_old))) =
      Inr \<lparr>os_fd = 3, os_name = ''a.txt''\<rparr>"
    by (simp add: memfs_defs flag_defs Let_def)
  have n: "O_RDWR OR O_CREATE OR O_TRUNC = 578" "calls (init fs_old) = []"
    by (simp_all add: flag_defs init_def)
  from inst h1 have a: "files (world (snd (Create memfs ''a.txt'' (init fs_old)))) ''a.txt'' = Some []"
    by blast
  from inst h2 old
  have b: "files (world (snd (Edit memfs ''a.txt'' (init fs_old)))) ''a.txt'' = Some [1, 2, 3]"
    by blast
  from inst have "calls (snd (Create memfs ''a.txt'' (init fs_old))) =
       [CallOpenFile ''a.txt'' (O_RDWR OR O_CREATE OR O_TRUNC) 438
          (Inr \<lparr>os_fd = 3, os_name = ''a.txt''\<rparr>)]"
    by (simp add: o n(2))
  then have c: "calls (snd (Create memfs ''a.txt'' (init fs_old))) =
       [CallOpenFile ''a.txt'' 578 438 (Inr \<lparr>os_fd = 3, os_name = ''a.txt''\<rparr>)]"
    by (simp add: n(1))
  from old h1 h2 a b c show ?thesis
    by (simp add: prod_eq_iff)
qed

end
